theory Spec2Isabelle
  imports Main "HOL-Library.Word" "HOL-Library.Sublist"
begin

section \<open>Route validation: pkg/apis/serving/v1alpha1/route_validation.go\<close>

subsection \<open>Integers and their decimal rendering\<close>

text \<open>
  Go's \<open>int\<close> on the 64-bit platforms the control plane runs on: addition wraps around,
  comparisons are signed. \<open>int64\<close> is the type of the deprecated generation field.
\<close>

type_synonym go_int = "64 word"
type_synonym int64 = "64 word"

text \<open>The verb \<open>%d\<close> of \<open>fmt.Sprintf\<close>: a decimal numeral, with a minus sign when negative.\<close>

definition digit_char :: "nat \<Rightarrow> char" where
  "digit_char d = ''0123456789'' ! d"

fun digits :: "nat \<Rightarrow> string" where
  "digits n = (if n < 10 then [digit_char n] else digits (n div 10) @ [digit_char (n mod 10)])"

declare digits.simps [simp del]

definition fmt_d :: "int \<Rightarrow> string" where
  "fmt_d i = (if i < 0 then CHR ''-'' # digits (nat (- i)) else digits (nat i))"

subsection \<open>The structured error model\<close>

text \<open>
  Modelled from the spec: the package \<open>apis\<close> (type \<open>FieldError\<close>, its methods \<open>Also\<close>,
  \<open>ViaField\<close>, \<open>ViaFieldIndex\<close> and the constructors \<open>ErrMissingField\<close>,
  \<open>ErrMultipleOneOf\<close>, \<open>ErrMissingOneOf\<close>, \<open>ErrInvalidKeyName\<close>, \<open>ErrOutOfBoundsValue\<close>,
  \<open>ErrDisallowedFields\<close>) is imported by the source file and is not part of it.
  Sections 3, 4.1 and 7 of the spec describe it: an error is a message with the field
  paths it applies to; each library constructor stands for one kind of the taxonomy and
  carries the data named in section 4.2. A message that the source file formats itself
  (\<open>Message: fmt.Sprintf(...)\<close>) is \<open>Text\<close> with the formatted string.
\<close>

datatype message =
    MissingField
  | MultipleOneOf
  | MissingOneOf
  | InvalidKeyName string "string list"
  | OutOfBoundsValue go_int go_int go_int
  | DisallowedFields
  | Text string

record FieldError =
  Message :: message
  Paths :: "string list"

text \<open>
  Modelled from the spec: a value of type \<open>*apis.FieldError\<close> is absent (\<open>nil\<close>, here the
  empty list) or present; merging keeps every message with its paths from both sides, in
  order, and absence is the identity of the merge (section 4.1).
\<close>

type_synonym Errs = "FieldError list"

definition Also :: "Errs \<Rightarrow> Errs \<Rightarrow> Errs" where
  "Also fe e = fe @ e"

text \<open>
  Modelled from the spec: \<open>apis.CurrentField\<close> is the path of the value under validation
  itself; prefixing it with a field yields that field (scenario A: \<open>spec\<close>).
\<close>

definition CurrentField :: string where
  "CurrentField = ''''"

text \<open>
  Modelled from the spec: prepending a segment to a path. A field name is followed by a
  dot, an index segment \<open>[i]\<close> attaches to the segment before it without one
  (\<open>percent\<close> becomes \<open>traffic[2].percent\<close>, section 4.1).
\<close>

definition flatten :: "string \<Rightarrow> string \<Rightarrow> string" where
  "flatten pfx p =
     (if p = CurrentField then pfx
      else if pfx = CurrentField then p
      else if hd p = CHR ''['' then pfx @ p
      else pfx @ ''.'' @ p)"

definition asIndex :: "nat \<Rightarrow> string" where
  "asIndex i = ''['' @ fmt_d (int i) @ '']''"

definition ViaField :: "Errs \<Rightarrow> string \<Rightarrow> Errs" where
  "ViaField fe pfx = map (\<lambda>e. e\<lparr>Paths := map (flatten pfx) (Paths e)\<rparr>) fe"

definition ViaIndex :: "Errs \<Rightarrow> nat \<Rightarrow> Errs" where
  "ViaIndex fe i = ViaField fe (asIndex i)"

definition ViaFieldIndex :: "Errs \<Rightarrow> string \<Rightarrow> nat \<Rightarrow> Errs" where
  "ViaFieldIndex fe field i = ViaField (ViaIndex fe i) field"

text \<open>Modelled from the spec: the library's constructors, one per kind (section 7).\<close>

definition ErrMissingField :: "string \<Rightarrow> Errs" where
  "ErrMissingField fieldPath = [\<lparr>Message = MissingField, Paths = [fieldPath]\<rparr>]"

definition ErrMultipleOneOf :: "string \<Rightarrow> string \<Rightarrow> Errs" where
  "ErrMultipleOneOf p q = [\<lparr>Message = MultipleOneOf, Paths = [p, q]\<rparr>]"

definition ErrMissingOneOf :: "string \<Rightarrow> string \<Rightarrow> Errs" where
  "ErrMissingOneOf p q = [\<lparr>Message = MissingOneOf, Paths = [p, q]\<rparr>]"

definition ErrInvalidKeyName :: "string \<Rightarrow> string \<Rightarrow> string list \<Rightarrow> Errs" where
  "ErrInvalidKeyName val fieldPath details =
     [\<lparr>Message = InvalidKeyName val details, Paths = [fieldPath]\<rparr>]"

definition ErrOutOfBoundsValue :: "go_int \<Rightarrow> go_int \<Rightarrow> go_int \<Rightarrow> string \<Rightarrow> Errs" where
  "ErrOutOfBoundsValue val lower upper fieldPath =
     [\<lparr>Message = OutOfBoundsValue val lower upper, Paths = [fieldPath]\<rparr>]"

definition ErrDisallowedFields :: "string \<Rightarrow> Errs" where
  "ErrDisallowedFields fieldPath = [\<lparr>Message = DisallowedFields, Paths = [fieldPath]\<rparr>]"

subsection \<open>The data model and the external collaborators\<close>

text \<open>
  Modelled from the spec: the struct declarations (route_types.go) are not among the
  sources. The fields are the ones the validators read; section 3 of the spec lists them.
\<close>

record TrafficTarget =
  Name :: string
  RevisionName :: string
  ConfigurationName :: string
  Percent :: go_int
  URL :: string

record RouteSpec =
  DeprecatedGeneration :: int64
  Traffic :: "TrafficTarget list"

record 'meta Route =
  ObjectMeta :: 'meta
  Spec :: RouteSpec

text \<open>
  The collaborators of section 6 are parameters of the validators: the qualified-name
  syntax checker (\<open>validation.IsQualifiedName\<close>), the deprecated-field check
  (\<open>CheckDeprecated\<close>), the object-metadata validator (\<open>serving.ValidateObjectMetadata\<close>),
  \<open>apis.WithinSpec\<close> on the context, and the verb \<open>%q\<close> of \<open>fmt.Sprintf\<close>.
\<close>

record ('ctx, 'meta) env =
  IsQualifiedName :: "string \<Rightarrow> string list"
  CheckDeprecated :: "'ctx \<Rightarrow> (string \<times> int64) list \<Rightarrow> Errs"
  ValidateObjectMetadata :: "'meta \<Rightarrow> Errs"
  WithinSpec :: "'ctx \<Rightarrow> 'ctx"
  fmt_q :: "string \<Rightarrow> string"

subsection \<open>TrafficTarget.Validate\<close>

definition TrafficTarget_Validate :: "('ctx, 'meta) env \<Rightarrow> 'ctx \<Rightarrow> TrafficTarget \<Rightarrow> Errs" where
  "TrafficTarget_Validate env ctx tt =
     (let errs =
        (if RevisionName tt \<noteq> '''' \<and> ConfigurationName tt \<noteq> '''' then
           ErrMultipleOneOf ''revisionName'' ''configurationName''
         else if RevisionName tt \<noteq> '''' then
           (let verrs = IsQualifiedName env (RevisionName tt) in
            if length verrs > 0 then ErrInvalidKeyName (RevisionName tt) ''revisionName'' verrs
            else [])
         else if ConfigurationName tt \<noteq> '''' then
           (let verrs = IsQualifiedName env (ConfigurationName tt) in
            if length verrs > 0 then
              ErrInvalidKeyName (ConfigurationName tt) ''configurationName'' verrs
            else [])
         else ErrMissingOneOf ''revisionName'' ''configurationName'');
        errs =
          (if Percent tt <s 0 \<or> 100 <s Percent tt then
             Also errs (ErrOutOfBoundsValue (Percent tt) 0 100 ''percent'')
           else errs);
        errs = (if URL tt \<noteq> '''' then Also errs (ErrDisallowedFields ''url'') else errs)
      in errs)"

subsection \<open>RouteSpec.Validate\<close>

text \<open>The state of the loop over \<open>rs.Traffic\<close>: the three variables the body updates.\<close>

record loop_state =
  errs :: Errs
  trafficMap :: "string \<rightharpoonup> nat"
  percentSum :: go_int

definition multiple_definitions :: "('ctx, 'meta) env \<Rightarrow> string \<Rightarrow> nat \<Rightarrow> nat \<Rightarrow> FieldError" where
  "multiple_definitions env name ent i =
     \<lparr>Message = Text (''Multiple definitions for '' @ fmt_q env name),
      Paths = [''traffic['' @ fmt_d (int ent) @ ''].name'',
               ''traffic['' @ fmt_d (int i) @ ''].name'']\<rparr>"

definition loop_body ::
  "('ctx, 'meta) env \<Rightarrow> 'ctx \<Rightarrow> nat \<Rightarrow> TrafficTarget \<Rightarrow> loop_state \<Rightarrow> loop_state" where
  "loop_body env ctx i tt st =
     (let st = st\<lparr>errs := Also (errs st) (ViaFieldIndex (TrafficTarget_Validate env ctx tt) ''traffic'' i)\<rparr>;
          st = st\<lparr>percentSum := percentSum st + Percent tt\<rparr>
      in if Name tt = '''' then st
         else (case trafficMap st (Name tt) of
                 None \<Rightarrow> st\<lparr>trafficMap := (trafficMap st)(Name tt \<mapsto> i)\<rparr>
               | Some ent \<Rightarrow>
                   st\<lparr>errs := Also (errs st) [multiple_definitions env (Name tt) ent i]\<rparr>))"

fun traffic_loop ::
  "('ctx, 'meta) env \<Rightarrow> 'ctx \<Rightarrow> nat \<Rightarrow> TrafficTarget list \<Rightarrow> loop_state \<Rightarrow> loop_state" where
  "traffic_loop env ctx i [] st = st"
| "traffic_loop env ctx i (tt # tts) st = traffic_loop env ctx (Suc i) tts (loop_body env ctx i tt st)"

definition sum_mismatch :: "go_int \<Rightarrow> FieldError" where
  "sum_mismatch psum =
     \<lparr>Message = Text (''Traffic targets sum to '' @ fmt_d (sint psum) @ '', want 100''),
      Paths = [''traffic'']\<rparr>"

text \<open>
  \<open>equality.Semantic.DeepEqual(rs, &RouteSpec{})\<close>: every field has its zero value; a nil
  and an empty slice of targets are the same list here.
\<close>

definition zero_RouteSpec :: RouteSpec where
  "zero_RouteSpec = \<lparr>DeprecatedGeneration = 0, Traffic = []\<rparr>"

definition RouteSpec_Validate :: "('ctx, 'meta) env \<Rightarrow> 'ctx \<Rightarrow> RouteSpec \<Rightarrow> Errs" where
  "RouteSpec_Validate env ctx rs =
     (if rs = zero_RouteSpec then ErrMissingField CurrentField
      else
        (let st = traffic_loop env ctx 0 (Traffic rs)
                    \<lparr>errs = CheckDeprecated env ctx [(''generation'', DeprecatedGeneration rs)],
                     trafficMap = Map.empty,
                     percentSum = 0\<rparr>
         in if percentSum st \<noteq> 100 then Also (errs st) [sum_mismatch (percentSum st)]
            else errs st))"

subsection \<open>Route.Validate\<close>

definition Route_Validate :: "('ctx, 'meta) env \<Rightarrow> 'ctx \<Rightarrow> 'meta Route \<Rightarrow> Errs" where
  "Route_Validate env ctx r =
     (let errs = ViaField (ValidateObjectMetadata env (ObjectMeta r)) ''metadata'';
          errs = Also errs (ViaField (RouteSpec_Validate env (WithinSpec env ctx) (Spec r)) ''spec'')
      in errs)"

subsection \<open>Kinds of findings\<close>

text \<open>
  The kinds of section 7 of the spec, read off a finding. The two kinds that the source
  file builds itself are recognised by the fixed text of their format strings.
\<close>

definition is_selector_finding :: "FieldError \<Rightarrow> bool" where
  "is_selector_finding e =
     (case Message e of MultipleOneOf \<Rightarrow> True | MissingOneOf \<Rightarrow> True
      | InvalidKeyName v ds \<Rightarrow> True | _ \<Rightarrow> False)"

definition is_OutOfBoundsValue :: "FieldError \<Rightarrow> bool" where
  "is_OutOfBoundsValue e = (case Message e of OutOfBoundsValue v l u \<Rightarrow> True | _ \<Rightarrow> False)"

definition is_DisallowedFields :: "FieldError \<Rightarrow> bool" where
  "is_DisallowedFields e = (case Message e of DisallowedFields \<Rightarrow> True | _ \<Rightarrow> False)"

definition is_DuplicateDefinition :: "FieldError \<Rightarrow> bool" where
  "is_DuplicateDefinition e =
     (case Message e of Text s \<Rightarrow> prefix ''Multiple definitions for '' s | _ \<Rightarrow> False)"

definition is_SumMismatch :: "FieldError \<Rightarrow> bool" where
  "is_SumMismatch e =
     (case Message e of Text s \<Rightarrow> prefix ''Traffic targets sum to '' s | _ \<Rightarrow> False)"

subsection \<open>The three rules of the Target Validator, in the spec's words\<close>

text \<open>
  Section 4.2 of the spec, rule by rule, each as a function of the target alone. They are
  compared with \<open>TrafficTarget_Validate\<close> below.
\<close>

definition destination_selector_rule :: "('ctx, 'meta) env \<Rightarrow> TrafficTarget \<Rightarrow> Errs" where
  "destination_selector_rule env tt =
     (if RevisionName tt \<noteq> '''' \<and> ConfigurationName tt \<noteq> '''' then
        [\<lparr>Message = MultipleOneOf, Paths = [''revisionName'', ''configurationName'']\<rparr>]
      else if RevisionName tt = '''' \<and> ConfigurationName tt = '''' then
        [\<lparr>Message = MissingOneOf, Paths = [''revisionName'', ''configurationName'']\<rparr>]
      else if RevisionName tt \<noteq> '''' then
        (if IsQualifiedName env (RevisionName tt) = [] then []
         else [\<lparr>Message = InvalidKeyName (RevisionName tt) (IsQualifiedName env (RevisionName tt)),
                Paths = [''revisionName'']\<rparr>])
      else
        (if IsQualifiedName env (ConfigurationName tt) = [] then []
         else [\<lparr>Message = InvalidKeyName (ConfigurationName tt)
                            (IsQualifiedName env (ConfigurationName tt)),
                Paths = [''configurationName'']\<rparr>]))"

definition weight_bounds_rule :: "TrafficTarget \<Rightarrow> Errs" where
  "weight_bounds_rule tt =
     (if 0 \<le> sint (Percent tt) \<and> sint (Percent tt) \<le> 100 then []
      else [\<lparr>Message = OutOfBoundsValue (Percent tt) 0 100, Paths = [''percent'']\<rparr>])"

definition forbidden_field_rule :: "TrafficTarget \<Rightarrow> Errs" where
  "forbidden_field_rule tt =
     (if URL tt = '''' then [] else [\<lparr>Message = DisallowedFields, Paths = [''url'']\<rparr>])"

subsection \<open>Occurrences of a name in the target sequence\<close>

text \<open>
  \<open>first_occ n tts\<close> is the index of the first target named \<open>n\<close> (the length of the
  sequence when there is none); \<open>repeats tts\<close> lists, in order, the indices whose
  non-empty name already occurs at a smaller index.
\<close>

definition first_occ :: "string \<Rightarrow> TrafficTarget list \<Rightarrow> nat" where
  "first_occ n tts = length (takeWhile (\<lambda>t. Name t \<noteq> n) tts)"

definition repeats :: "TrafficTarget list \<Rightarrow> nat list" where
  "repeats tts =
     filter (\<lambda>k. Name (tts ! k) \<noteq> '''' \<and> Name (tts ! k) \<in> Name ` set (take k tts))
       [0..<length tts]"

subsection \<open>Concrete collaborators and inputs\<close>

text \<open>
  A concrete environment for evaluating the validators: the syntax checker rejects the
  one name \<open>bad name\<close>, the deprecated-field check and the metadata validator report
  nothing, and \<open>%q\<close> wraps its argument in double quotes.
\<close>

definition example_env :: "(unit, unit) env" where
  "example_env =
     \<lparr>IsQualifiedName = (\<lambda>s. if s = ''bad name'' then [''invalid name part''] else []),
      CheckDeprecated = (\<lambda>c fs. []),
      ValidateObjectMetadata = (\<lambda>m. []),
      WithinSpec = (\<lambda>c. c),
      fmt_q = (\<lambda>s. CHR 0x22 # s @ [CHR 0x22])\<rparr>"

definition target :: "string \<Rightarrow> string \<Rightarrow> string \<Rightarrow> go_int \<Rightarrow> string \<Rightarrow> TrafficTarget" where
  "target n r c p u =
     \<lparr>Name = n, RevisionName = r, ConfigurationName = c, Percent = p, URL = u\<rparr>"

text \<open>
  Three concrete specs: one whose weights add up to 100 only after wrapping around, one
  where the name \<open>a\<close> occurs three times among unnamed targets (weights summing to
  100), and one whose weights sum to 110.
\<close>

definition overflow_spec :: RouteSpec where
  "overflow_spec =
     \<lparr>DeprecatedGeneration = 0,
      Traffic = [target [] ''rev-1'' [] 9223372036854775807 [],
                 target [] ''rev-2'' [] 9223372036854775807 [],
                 target [] ''rev-3'' [] 102 []]\<rparr>"

definition named_spec :: RouteSpec where
  "named_spec =
     \<lparr>DeprecatedGeneration = 0,
      Traffic = [target [] ''rev-0'' [] 10 [],
                 target ''a'' ''rev-1'' [] 20 [],
                 target [] ''rev-2'' [] 10 [],
                 target ''a'' ''rev-3'' [] 30 [],
                 target ''a'' [] ''cfg'' 30 []]\<rparr>"

definition heavy_spec :: RouteSpec where
  "heavy_spec =
     \<lparr>DeprecatedGeneration = 0,
      Traffic = [target [] ''rev-1'' [] 60 [], target [] [] ''cfg'' 50 []]\<rparr>"

text \<open>
  Two specs with weights outside [0,100]: 150 and -50, which add up to 100, and 150 and 0,
  which do not.
\<close>

definition out_of_range_spec :: RouteSpec where
  "out_of_range_spec =
     \<lparr>DeprecatedGeneration = 0,
      Traffic = [target [] ''rev-1'' [] 150 [], target [] ''rev-2'' [] (- 50) []]\<rparr>"

definition unbalanced_spec :: RouteSpec where
  "unbalanced_spec =
     \<lparr>DeprecatedGeneration = 0,
      Traffic = [target [] ''rev-1'' [] 150 [], target [] ''rev-2'' [] 0 []]\<rparr>"

text \<open>
  The OutOfBoundsValue finding of the target at index \<open>i\<close>, as the Spec Validator
  reports it: none when the weight is in [0,100].
\<close>

definition out_of_bounds_at :: "nat \<Rightarrow> TrafficTarget \<Rightarrow> Errs" where
  "out_of_bounds_at i tt =
     (if sint (Percent tt) < 0 \<or> 100 < sint (Percent tt) then
        [\<lparr>Message = OutOfBoundsValue (Percent tt) 0 100,
          Paths = [''traffic['' @ fmt_d (int i) @ ''].percent'']\<rparr>]
      else [])"

section \<open>Properties of the Target Validator\<close>

lemma out_of_bounds_iff:
  "((p::go_int) <s 0 \<or> 100 <s p) = (\<not> (0 \<le> sint p \<and> sint p \<le> 100))"
  by (auto simp: word_sless_alt)

text \<open>The source's accumulation computes the three rules one after the other.\<close>

lemma TrafficTarget_Validate_rules:
  "TrafficTarget_Validate env ctx tt =
     destination_selector_rule env tt @ weight_bounds_rule tt @ forbidden_field_rule tt"
  by (simp add: TrafficTarget_Validate_def destination_selector_rule_def weight_bounds_rule_def
      forbidden_field_rule_def out_of_bounds_iff Also_def ErrMultipleOneOf_def
      ErrMissingOneOf_def ErrInvalidKeyName_def ErrOutOfBoundsValue_def ErrDisallowedFields_def
      Let_def)

lemma selector_rule_kind:
  "filter is_selector_finding (destination_selector_rule env tt) = destination_selector_rule env tt"
  "filter is_OutOfBoundsValue (destination_selector_rule env tt) = []"
  "filter is_DisallowedFields (destination_selector_rule env tt) = []"
  by (simp_all add: destination_selector_rule_def is_selector_finding_def
      is_OutOfBoundsValue_def is_DisallowedFields_def)

lemma weight_rule_kind:
  "filter is_selector_finding (weight_bounds_rule tt) = []"
  "filter is_OutOfBoundsValue (weight_bounds_rule tt) = weight_bounds_rule tt"
  "filter is_DisallowedFields (weight_bounds_rule tt) = []"
  by (simp_all add: weight_bounds_rule_def is_selector_finding_def
      is_OutOfBoundsValue_def is_DisallowedFields_def)

lemma url_rule_kind:
  "filter is_selector_finding (forbidden_field_rule tt) = []"
  "filter is_OutOfBoundsValue (forbidden_field_rule tt) = []"
  "filter is_DisallowedFields (forbidden_field_rule tt) = forbidden_field_rule tt"
  by (simp_all add: forbidden_field_rule_def is_selector_finding_def
      is_OutOfBoundsValue_def is_DisallowedFields_def)

text \<open>
  C3: the destination-selector findings of the Target Validator (kinds MultipleOneOf,
  MissingOneOf, InvalidKeyName) are decided by a four-way choice. Both references set:
  one MultipleOneOf on both field paths. Neither set: one MissingOneOf on both field
  paths. Exactly one set: one InvalidKeyName on that field's path, carrying the value and
  the syntax checker's violations, exactly when the checker returns a non-empty sequence
  for that value, and nothing otherwise. In every case there is at most one such finding.
\<close>

theorem destination_selector_exclusive_choice:
  "filter is_selector_finding (TrafficTarget_Validate env ctx tt) =
     (if RevisionName tt \<noteq> '''' \<and> ConfigurationName tt \<noteq> '''' then
        [\<lparr>Message = MultipleOneOf, Paths = [''revisionName'', ''configurationName'']\<rparr>]
      else if RevisionName tt = '''' \<and> ConfigurationName tt = '''' then
        [\<lparr>Message = MissingOneOf, Paths = [''revisionName'', ''configurationName'']\<rparr>]
      else if RevisionName tt \<noteq> '''' then
        (if IsQualifiedName env (RevisionName tt) \<noteq> [] then
           [\<lparr>Message = InvalidKeyName (RevisionName tt) (IsQualifiedName env (RevisionName tt)),
             Paths = [''revisionName'']\<rparr>]
         else [])
      else
        (if IsQualifiedName env (ConfigurationName tt) \<noteq> [] then
           [\<lparr>Message = InvalidKeyName (ConfigurationName tt)
                         (IsQualifiedName env (ConfigurationName tt)),
             Paths = [''configurationName'']\<rparr>]
         else []))
   \<and> length (filter is_selector_finding (TrafficTarget_Validate env ctx tt)) \<le> 1"
  by (simp add: TrafficTarget_Validate_rules selector_rule_kind weight_rule_kind url_rule_kind)
     (simp add: destination_selector_rule_def)

text \<open>The choice of C3 on a target whose only reference, a configuration, is rejected.\<close>

theorem destination_selector_exclusive_choice_witness:
  "filter is_selector_finding
     (TrafficTarget_Validate example_env () (target ''a'' '''' ''bad name'' 150 ''u'')) =
   [\<lparr>Message = InvalidKeyName ''bad name'' [''invalid name part''],
     Paths = [''configurationName'']\<rparr>]"
  using destination_selector_exclusive_choice
    [of example_env "()" "target ''a'' '''' ''bad name'' 150 ''u''"]
  by (simp add: target_def example_env_def)

text \<open>
  C5: a target with exactly one of the two references set, whose set reference the
  syntax checker accepts, whose weight lies in [0,100] and whose URL is empty, gets no
  error from the Target Validator.
\<close>

theorem valid_target_no_error:
  assumes "(RevisionName tt \<noteq> '''') \<noteq> (ConfigurationName tt \<noteq> '''')"
    and "IsQualifiedName env
           (if RevisionName tt \<noteq> '''' then RevisionName tt else ConfigurationName tt) = []"
    and "0 \<le> sint (Percent tt)" and "sint (Percent tt) \<le> 100"
    and "URL tt = ''''"
  shows "TrafficTarget_Validate env ctx tt = []"
  using assms
  by (auto simp add: TrafficTarget_Validate_rules destination_selector_rule_def
      weight_bounds_rule_def forbidden_field_rule_def split: if_splits)

theorem valid_target_no_error_witness:
  "TrafficTarget_Validate example_env () (target ''a'' ''rev-1'' '''' 40 '''') = []
   \<and> TrafficTarget_Validate example_env () (target '''' '''' ''cfg'' 100 '''') = []"
  using valid_target_no_error [of "target ''a'' ''rev-1'' '''' 40 ''''" example_env "()"]
    valid_target_no_error [of "target '''' '''' ''cfg'' 100 ''''" example_env "()"]
  by (simp add: target_def example_env_def)

text \<open>
  C6: the result of the Target Validator is the merge of its three rules, each a
  function of the target alone, so no rule's finding suppresses another's. In
  particular a target with both references set, a weight outside [0,100] and a non-empty
  URL gets all three findings together.
\<close>

theorem target_rules_merged:
  "TrafficTarget_Validate env ctx tt =
     Also (Also (destination_selector_rule env tt) (weight_bounds_rule tt))
       (forbidden_field_rule tt)
   \<and> (RevisionName tt \<noteq> '''' \<and> ConfigurationName tt \<noteq> ''''
        \<and> (sint (Percent tt) < 0 \<or> 100 < sint (Percent tt)) \<and> URL tt \<noteq> '''' \<longrightarrow>
      TrafficTarget_Validate env ctx tt =
        [\<lparr>Message = MultipleOneOf, Paths = [''revisionName'', ''configurationName'']\<rparr>,
         \<lparr>Message = OutOfBoundsValue (Percent tt) 0 100, Paths = [''percent'']\<rparr>,
         \<lparr>Message = DisallowedFields, Paths = [''url'']\<rparr>])"
  by (auto simp add: TrafficTarget_Validate_rules Also_def destination_selector_rule_def
      weight_bounds_rule_def forbidden_field_rule_def)

theorem target_rules_merged_witness:
  "sint (Percent (target [] ''rev-1'' ''cfg'' 150 ''http://x'')) = 150
   \<and> TrafficTarget_Validate example_env () (target [] ''rev-1'' ''cfg'' 150 ''http://x'') =
     [\<lparr>Message = MultipleOneOf, Paths = [''revisionName'', ''configurationName'']\<rparr>,
      \<lparr>Message = OutOfBoundsValue 150 0 100, Paths = [''percent'']\<rparr>,
      \<lparr>Message = DisallowedFields, Paths = [''url'']\<rparr>]"
  using target_rules_merged [of example_env "()" "target [] ''rev-1'' ''cfg'' 150 ''http://x''",
      THEN conjunct2]
  by (simp add: target_def)

text \<open>
  C7: the OutOfBoundsValue findings of the Target Validator are exactly one finding at
  path \<open>percent\<close>, carrying the weight and the bounds 0 and 100, when the weight is
  outside [0,100], and none when it is inside.
\<close>

theorem weight_out_of_bounds:
  "filter is_OutOfBoundsValue (TrafficTarget_Validate env ctx tt) =
     (if sint (Percent tt) < 0 \<or> 100 < sint (Percent tt) then
        [\<lparr>Message = OutOfBoundsValue (Percent tt) 0 100, Paths = [''percent'']\<rparr>]
      else [])"
  by (simp add: TrafficTarget_Validate_rules selector_rule_kind weight_rule_kind url_rule_kind)
     (auto simp add: weight_bounds_rule_def)

text \<open>Scenario E: the weight 150.\<close>

theorem weight_out_of_bounds_witness:
  "filter is_OutOfBoundsValue
     (TrafficTarget_Validate example_env () (target '''' ''rev-1'' '''' 150 '''')) =
   [\<lparr>Message = OutOfBoundsValue 150 0 100, Paths = [''percent'']\<rparr>]"
  using weight_out_of_bounds [of example_env "()" "target '''' ''rev-1'' '''' 150 ''''"]
  by (simp add: target_def)

text \<open>
  C8: the Target Validator's result holds a DisallowedFields finding at path \<open>url\<close>
  if and only if the target's URL is non-empty; it is then the only finding of that kind.
\<close>

theorem url_disallowed:
  "filter is_DisallowedFields (TrafficTarget_Validate env ctx tt) =
     (if URL tt \<noteq> '''' then [\<lparr>Message = DisallowedFields, Paths = [''url'']\<rparr>] else [])
   \<and> ((\<lparr>Message = DisallowedFields, Paths = [''url'']\<rparr>
          \<in> set (TrafficTarget_Validate env ctx tt)) = (URL tt \<noteq> ''''))"
  by (simp add: TrafficTarget_Validate_rules selector_rule_kind weight_rule_kind url_rule_kind)
     (auto simp add: forbidden_field_rule_def destination_selector_rule_def
      weight_bounds_rule_def)

text \<open>Scenario F: a target with a URL.\<close>

theorem url_disallowed_witness:
  "filter is_DisallowedFields
     (TrafficTarget_Validate example_env () (target '''' ''rev-1'' '''' 50 ''http://x'')) =
   [\<lparr>Message = DisallowedFields, Paths = [''url'']\<rparr>]"
  using url_disallowed [of example_env "()" "target '''' ''rev-1'' '''' 50 ''http://x''"]
  by (simp add: target_def)

section \<open>Properties of the Spec Validator\<close>

subsection \<open>One iteration of the loop\<close>

lemma traffic_loop_snoc:
  "traffic_loop env ctx i (tts @ [tt]) st =
     loop_body env ctx (i + length tts) tt (traffic_loop env ctx i tts st)"
  by (induction tts arbitrary: i st) simp_all

lemma is_SumMismatch_ViaField:
  "filter is_SumMismatch (ViaField fe p) = ViaField (filter is_SumMismatch fe) p"
  by (induction fe) (simp_all add: ViaField_def is_SumMismatch_def)

lemma is_DuplicateDefinition_ViaField:
  "filter is_DuplicateDefinition (ViaField fe p) = ViaField (filter is_DuplicateDefinition fe) p"
  by (induction fe) (simp_all add: ViaField_def is_DuplicateDefinition_def)

lemma target_no_Text:
  "filter is_SumMismatch (TrafficTarget_Validate env ctx tt) = []"
  "filter is_DuplicateDefinition (TrafficTarget_Validate env ctx tt) = []"
  by (simp_all add: TrafficTarget_Validate_rules destination_selector_rule_def
      weight_bounds_rule_def forbidden_field_rule_def is_SumMismatch_def
      is_DuplicateDefinition_def)

lemma target_prefixed_no_Text:
  "filter is_SumMismatch (ViaFieldIndex (TrafficTarget_Validate env ctx tt) f i) = []"
  "filter is_DuplicateDefinition (ViaFieldIndex (TrafficTarget_Validate env ctx tt) f i) = []"
  by (simp_all add: ViaFieldIndex_def ViaIndex_def is_SumMismatch_ViaField
      is_DuplicateDefinition_ViaField target_no_Text) (simp_all add: ViaField_def)

lemma multiple_definitions_kind:
  "is_DuplicateDefinition (multiple_definitions env n ent i)"
  "\<not> is_SumMismatch (multiple_definitions env n ent i)"
  by (simp_all add: multiple_definitions_def is_DuplicateDefinition_def is_SumMismatch_def)

lemma sum_mismatch_kind:
  "is_SumMismatch (sum_mismatch s)"
  "\<not> is_DuplicateDefinition (sum_mismatch s)"
  by (simp_all add: sum_mismatch_def is_DuplicateDefinition_def is_SumMismatch_def)

lemma loop_body_percentSum:
  "percentSum (loop_body env ctx i tt st) = percentSum st + Percent tt"
  by (simp add: loop_body_def Let_def split: option.splits)

lemma loop_body_SumMismatch:
  "filter is_SumMismatch (errs (loop_body env ctx i tt st)) = filter is_SumMismatch (errs st)"
  by (simp add: loop_body_def Let_def Also_def target_prefixed_no_Text
      multiple_definitions_kind split: option.splits)

lemma loop_body_trafficMap:
  "trafficMap (loop_body env ctx i tt st) =
     (if Name tt = '''' then trafficMap st
      else case trafficMap st (Name tt) of
             None \<Rightarrow> (trafficMap st)(Name tt \<mapsto> i)
           | Some ent \<Rightarrow> trafficMap st)"
  by (simp add: loop_body_def Let_def split: option.splits)

lemma loop_body_DuplicateDefinition:
  "filter is_DuplicateDefinition (errs (loop_body env ctx i tt st)) =
     filter is_DuplicateDefinition (errs st) @
     (if Name tt = '''' then []
      else case trafficMap st (Name tt) of
             None \<Rightarrow> []
           | Some ent \<Rightarrow> [multiple_definitions env (Name tt) ent i])"
  by (simp add: loop_body_def Let_def Also_def target_prefixed_no_Text
      multiple_definitions_kind split: option.splits)

subsection \<open>The whole loop\<close>

lemma traffic_loop_percentSum:
  "percentSum (traffic_loop env ctx i tts st) = percentSum st + sum_list (map Percent tts)"
  by (induction tts arbitrary: i st) (simp_all add: loop_body_percentSum add.assoc)

lemma traffic_loop_SumMismatch:
  "filter is_SumMismatch (errs (traffic_loop env ctx i tts st)) = filter is_SumMismatch (errs st)"
  by (induction tts arbitrary: i st) (simp_all add: loop_body_SumMismatch)

subsection \<open>First occurrences and repeats\<close>

lemma first_occ_snoc_in:
  "n \<in> Name ` set tts \<Longrightarrow> first_occ n (tts @ [x]) = first_occ n tts"
  by (induction tts) (auto simp add: first_occ_def)

lemma first_occ_snoc_notin:
  "Name x \<notin> Name ` set tts \<Longrightarrow> first_occ (Name x) (tts @ [x]) = length tts"
  by (induction tts) (auto simp add: first_occ_def)

lemma first_occ_less:
  "n \<in> Name ` set tts \<Longrightarrow> first_occ n tts < length tts"
  by (induction tts) (auto simp add: first_occ_def)

lemma first_occ_name:
  "n \<in> Name ` set tts \<Longrightarrow> Name (tts ! first_occ n tts) = n"
  by (induction tts) (auto simp add: first_occ_def)

lemma first_occ_least:
  "k < first_occ n tts \<Longrightarrow> Name (tts ! k) \<noteq> n"
proof (induction tts arbitrary: k)
  case Nil
  then show ?case by (simp add: first_occ_def)
next
  case (Cons t tts)
  then show ?case
    by (cases k) (auto simp add: first_occ_def split: if_splits)
qed

lemma repeats_snoc:
  "repeats (tts @ [x]) =
     repeats tts @ (if Name x \<noteq> '''' \<and> Name x \<in> Name ` set tts then [length tts] else [])"
proof -
  have "filter (\<lambda>k. Name ((tts @ [x]) ! k) \<noteq> '''' \<and>
                      Name ((tts @ [x]) ! k) \<in> Name ` set (take k (tts @ [x]))) [0..<length tts]
        = filter (\<lambda>k. Name (tts ! k) \<noteq> '''' \<and> Name (tts ! k) \<in> Name ` set (take k tts))
            [0..<length tts]"
    by (rule filter_cong) (simp_all add: nth_append)
  then show ?thesis by (simp add: repeats_def)
qed

lemma repeats_bound: "i \<in> set (repeats tts) \<Longrightarrow> i < length tts"
  by (simp add: repeats_def)

lemma repeats_name:
  "i \<in> set (repeats tts) \<Longrightarrow> Name (tts ! i) \<noteq> '''' \<and> Name (tts ! i) \<in> Name ` set tts"
  by (auto simp add: repeats_def dest: in_set_takeD)

lemma first_occ_append_in:
  "n \<in> Name ` set xs \<Longrightarrow> first_occ n (xs @ ys) = first_occ n xs"
  by (induction xs) (auto simp add: first_occ_def)

lemma first_occ_before:
  assumes "n \<in> Name ` set (take i tts)"
  shows "first_occ n tts < i"
proof -
  have "first_occ n (take i tts @ drop i tts) = first_occ n (take i tts)"
    using assms by (rule first_occ_append_in)
  moreover have "first_occ n (take i tts) < length (take i tts)"
    using assms by (rule first_occ_less)
  ultimately show ?thesis by simp
qed

lemma repeats_first_occ:
  assumes "i \<in> set (repeats tts)"
  shows "first_occ (Name (tts ! i)) tts < i"
  using assms by (auto simp add: repeats_def intro: first_occ_before)

lemma repeats_count:
  "n \<noteq> '''' \<Longrightarrow>
   length (filter (\<lambda>i. Name (tts ! i) = n) (repeats tts)) = count_list (map Name tts) n - 1"
proof (induction tts rule: rev_induct)
  case Nil
  show ?case by (simp add: repeats_def)
next
  case (snoc x tts)
  have same: "filter (\<lambda>i. Name ((tts @ [x]) ! i) = n) (repeats tts)
              = filter (\<lambda>i. Name (tts ! i) = n) (repeats tts)"
    by (rule filter_cong) (simp_all add: repeats_bound nth_append)
  have pos: "n \<in> Name ` set tts \<Longrightarrow> 0 < count_list (map Name tts) n"
    using count_list_0_iff [of "map Name tts" n] by auto
  have zero: "n \<notin> Name ` set tts \<Longrightarrow> count_list (map Name tts) n = 0"
    using count_list_0_iff [of "map Name tts" n] by auto
  show ?case
    using snoc pos zero by (auto simp add: repeats_snoc same)
qed

subsection \<open>The name map and the duplicate findings after the loop\<close>

lemma traffic_loop_trafficMap:
  assumes "trafficMap st = Map.empty"
  shows "trafficMap (traffic_loop env ctx 0 tts st) =
           (\<lambda>n. if n \<noteq> '''' \<and> n \<in> Name ` set tts then Some (first_occ n tts) else None)"
proof (induction tts rule: rev_induct)
  case Nil
  show ?case by (simp add: assms)
next
  case (snoc x tts)
  show ?case
  proof (rule ext)
    fix n
    show "trafficMap (traffic_loop env ctx 0 (tts @ [x]) st) n =
            (if n \<noteq> '''' \<and> n \<in> Name ` set (tts @ [x]) then Some (first_occ n (tts @ [x])) else None)"
      by (auto simp add: traffic_loop_snoc loop_body_trafficMap snoc.IH first_occ_snoc_in
          first_occ_snoc_notin)
  qed
qed

lemma traffic_loop_DuplicateDefinition:
  assumes "trafficMap st = Map.empty"
  shows "filter is_DuplicateDefinition (errs (traffic_loop env ctx 0 tts st)) =
           filter is_DuplicateDefinition (errs st) @
           map (\<lambda>i. multiple_definitions env (Name (tts ! i)) (first_occ (Name (tts ! i)) tts) i)
             (repeats tts)"
proof (induction tts rule: rev_induct)
  case Nil
  show ?case by (simp add: repeats_def)
next
  case (snoc x tts)
  have same: "map (\<lambda>i. multiple_definitions env (Name ((tts @ [x]) ! i))
                          (first_occ (Name ((tts @ [x]) ! i)) (tts @ [x])) i) (repeats tts)
              = map (\<lambda>i. multiple_definitions env (Name (tts ! i)) (first_occ (Name (tts ! i)) tts) i)
                  (repeats tts)"
    by (rule map_cong)
       (simp_all add: repeats_bound repeats_name nth_append first_occ_snoc_in)
  show ?case
    by (simp add: traffic_loop_snoc loop_body_DuplicateDefinition snoc.IH
        traffic_loop_trafficMap [OF assms] repeats_snoc same first_occ_snoc_in)
qed

subsection \<open>The validator as a whole\<close>

lemma RouteSpec_Validate_nonzero:
  assumes "rs \<noteq> zero_RouteSpec"
  shows "RouteSpec_Validate env ctx rs =
           errs (traffic_loop env ctx 0 (Traffic rs)
                   \<lparr>errs = CheckDeprecated env ctx [(''generation'', DeprecatedGeneration rs)],
                    trafficMap = Map.empty, percentSum = 0\<rparr>) @
           (if sum_list (map Percent (Traffic rs)) = 100 then []
            else [sum_mismatch (sum_list (map Percent (Traffic rs)))])"
  using assms by (simp add: RouteSpec_Validate_def Let_def traffic_loop_percentSum Also_def)

lemma RouteSpec_Validate_zero:
  "RouteSpec_Validate env ctx zero_RouteSpec = [\<lparr>Message = MissingField, Paths = [CurrentField]\<rparr>]"
  by (simp add: RouteSpec_Validate_def ErrMissingField_def)

lemma fmt_d_simps:
  "fmt_d 0 = ''0''" "fmt_d 1 = ''1''" "fmt_d 2 = ''2''" "fmt_d 3 = ''3''" "fmt_d 4 = ''4''"
  "fmt_d 110 = ''110''" "fmt_d 150 = ''150''"
  by (simp_all add: fmt_d_def digits.simps digit_char_def)

subsection \<open>The running total in wrapping arithmetic\<close>

lemma sint_sum_list:
  "sint (sum_list ws :: go_int) = signed_take_bit 63 (sum_list (map sint ws))"
proof (induction ws)
  case Nil
  show ?case by simp
next
  case (Cons w ws)
  let ?S = "sum_list (map sint ws)"
  have "sint (w + sum_list ws) = signed_take_bit 63 (sint w + signed_take_bit 63 ?S)"
    by (simp add: sint_word_ariths Cons.IH)
  also have "\<dots> = signed_take_bit 63
                      (signed_take_bit 63 (sint w) + signed_take_bit 63 (signed_take_bit 63 ?S))"
    by (simp only: signed_take_bit_add)
  also have "\<dots> = signed_take_bit 63 (signed_take_bit 63 (sint w) + signed_take_bit 63 ?S)"
    by simp
  also have "\<dots> = signed_take_bit 63 (sint w + ?S)"
    by (simp only: signed_take_bit_add)
  finally show ?case by simp
qed

lemma sum_list_eq_100_iff:
  fixes ws :: "go_int list"
  assumes "- (2 ^ 63) \<le> sum_list (map sint ws)" and "sum_list (map sint ws) < 2 ^ 63"
  shows "(sum_list ws = 100) = (sum_list (map sint ws) = 100)"
proof -
  have "sint (sum_list ws) = sum_list (map sint ws)"
    using assms by (simp add: sint_sum_list signed_take_bit_int_eq_self)
  moreover have "(sum_list ws = 100) = (sint (sum_list ws) = sint (100 :: go_int))"
    by (rule word_eq_iff_signed)
  ultimately show ?thesis by simp
qed

text \<open>
  C1, as amended: for a Spec with at least one target, when the deprecated-field check
  itself reports no finding with the sum-mismatch text, the SumMismatch findings of the
  Spec Validator are none exactly when the running total equals 100, and otherwise the
  single finding at path \<open>traffic\<close> whose message states the running total and the
  expected 100. The running total is the sum of the weights in Go's wrapping 64-bit
  arithmetic; it equals 100 exactly when the integer sum of the weights does, provided
  that integer sum lies in the range of a 64-bit signed integer.
\<close>

theorem sum_mismatch_iff_running_total:
  assumes "Traffic rs \<noteq> []"
    and "filter is_SumMismatch
           (CheckDeprecated env ctx [(''generation'', DeprecatedGeneration rs)]) = []"
  shows "filter is_SumMismatch (RouteSpec_Validate env ctx rs) =
           (if sum_list (map Percent (Traffic rs)) = 100 then []
            else [\<lparr>Message = Text (''Traffic targets sum to ''
                                    @ fmt_d (sint (sum_list (map Percent (Traffic rs))))
                                    @ '', want 100''),
                   Paths = [''traffic'']\<rparr>])
         \<and> (- (2 ^ 63) \<le> sum_list (map (sint \<circ> Percent) (Traffic rs))
              \<and> sum_list (map (sint \<circ> Percent) (Traffic rs)) < 2 ^ 63 \<longrightarrow>
            (sum_list (map Percent (Traffic rs)) = 100)
              = (sum_list (map (sint \<circ> Percent) (Traffic rs)) = 100))"
proof -
  have nz: "rs \<noteq> zero_RouteSpec"
    using assms(1) by (auto simp add: zero_RouteSpec_def)
  have first: "filter is_SumMismatch (RouteSpec_Validate env ctx rs) =
           (if sum_list (map Percent (Traffic rs)) = 100 then []
            else [sum_mismatch (sum_list (map Percent (Traffic rs)))])"
    by (simp add: RouteSpec_Validate_nonzero [OF nz] traffic_loop_SumMismatch assms(2)
        sum_mismatch_kind)
  have second: "- (2 ^ 63) \<le> sum_list (map (sint \<circ> Percent) (Traffic rs))
              \<and> sum_list (map (sint \<circ> Percent) (Traffic rs)) < 2 ^ 63 \<longrightarrow>
            (sum_list (map Percent (Traffic rs)) = 100)
              = (sum_list (map (sint \<circ> Percent) (Traffic rs)) = 100)"
    using sum_list_eq_100_iff [of "map Percent (Traffic rs)"] by (simp add: comp_def)
  from first second show ?thesis by (simp add: sum_mismatch_def)
qed

theorem sum_mismatch_iff_running_total_witness:
  "Traffic heavy_spec \<noteq> []
   \<and> filter is_SumMismatch (RouteSpec_Validate example_env () heavy_spec) =
       [\<lparr>Message = Text ''Traffic targets sum to 110, want 100'', Paths = [''traffic'']\<rparr>]
   \<and> Traffic named_spec \<noteq> []
   \<and> filter is_SumMismatch (RouteSpec_Validate example_env () named_spec) = []"
  using sum_mismatch_iff_running_total [of heavy_spec example_env "()", THEN conjunct1]
    sum_mismatch_iff_running_total [of named_spec example_env "()", THEN conjunct1]
  by (simp add: heavy_spec_def named_spec_def target_def example_env_def fmt_d_simps)

text \<open>
  C1 as stated fails: the three weights 9223372036854775807, 9223372036854775807 and 102
  have the integer sum 18446744073709551716, not 100, yet the running total wraps around
  to 100 and the Spec Validator reports no SumMismatch finding.
\<close>

theorem sum_mismatch_overflow_counterexample:
  "Traffic overflow_spec \<noteq> []
   \<and> RouteSpec_Validate example_env () overflow_spec =
       [\<lparr>Message = OutOfBoundsValue 9223372036854775807 0 100,
         Paths = [''traffic[0].percent'']\<rparr>,
        \<lparr>Message = OutOfBoundsValue 9223372036854775807 0 100,
         Paths = [''traffic[1].percent'']\<rparr>,
        \<lparr>Message = OutOfBoundsValue 102 0 100, Paths = [''traffic[2].percent'']\<rparr>]
   \<and> filter is_SumMismatch (RouteSpec_Validate example_env () overflow_spec) = []
   \<and> sum_list (map (sint \<circ> Percent) (Traffic overflow_spec)) = 18446744073709551716"
  by (simp add: overflow_spec_def target_def example_env_def RouteSpec_Validate_def
      zero_RouteSpec_def loop_body_def TrafficTarget_Validate_def Also_def Let_def
      ViaFieldIndex_def ViaIndex_def ViaField_def ErrOutOfBoundsValue_def
      is_SumMismatch_def word_sless_alt asIndex_def flatten_def CurrentField_def
      fmt_d_simps)

lemma RouteSpec_Validate_DuplicateDefinition:
  assumes "filter is_DuplicateDefinition
             (CheckDeprecated env ctx [(''generation'', DeprecatedGeneration rs)]) = []"
  shows "filter is_DuplicateDefinition (RouteSpec_Validate env ctx rs) =
           map (\<lambda>i. multiple_definitions env (Name (Traffic rs ! i))
                      (first_occ (Name (Traffic rs ! i)) (Traffic rs)) i)
             (repeats (Traffic rs))"
proof (cases "rs = zero_RouteSpec")
  case True
  have "Traffic zero_RouteSpec = []"
    by (simp add: zero_RouteSpec_def)
  with True show ?thesis
    by (simp add: RouteSpec_Validate_zero is_DuplicateDefinition_def repeats_def)
next
  case False
  then show ?thesis
    by (simp add: RouteSpec_Validate_nonzero traffic_loop_DuplicateDefinition assms
        sum_mismatch_kind)
qed

lemma named_findings_count:
  assumes dups: "filter is_DuplicateDefinition r =
                   map (\<lambda>i. multiple_definitions env (Name (tts ! i))
                              (first_occ (Name (tts ! i)) tts) i)
                     (repeats tts)"
    and inj: "inj (fmt_q env)"
  shows "length (filter (\<lambda>e. Message e = Text (''Multiple definitions for '' @ fmt_q env n)) r) =
           length (filter (\<lambda>i. Name (tts ! i) = n) (repeats tts))"
proof -
  let ?P = "\<lambda>e. Message e = Text (''Multiple definitions for '' @ fmt_q env n)"
  have "filter ?P r = filter ?P (filter is_DuplicateDefinition r)"
    by (auto simp add: is_DuplicateDefinition_def intro!: filter_cong)
  also have "\<dots> = map (\<lambda>i. multiple_definitions env (Name (tts ! i))
                                (first_occ (Name (tts ! i)) tts) i)
                     (filter (\<lambda>i. Name (tts ! i) = n) (repeats tts))"
    using inj by (simp add: dups filter_map comp_def multiple_definitions_def inj_eq)
  finally show ?thesis by simp
qed

text \<open>
  C2: when the deprecated-field check itself reports no finding with the
  multiple-definitions text, the DuplicateDefinition findings of the Spec Validator are,
  in order, one per index \<open>i\<close> whose non-empty name already occurs at a smaller index:
  its message names that name and its paths are exactly \<open>traffic[j].name\<close> and
  \<open>traffic[i].name\<close>, with \<open>j\<close> the index of the first target of that name. A
  non-empty name occurring at \<open>N \<ge> 2\<close> indices accounts for exactly \<open>N - 1\<close> of these
  indices, and, when \<open>%q\<close> renders different names differently, for exactly \<open>N - 1\<close>
  findings whose message names it. Every such \<open>i\<close> has a non-empty name, \<open>j < i\<close>, the
  target at \<open>j\<close> has the same name and no target before \<open>j\<close> has it; targets with an
  empty name contribute nothing.
\<close>

theorem duplicate_definitions:
  assumes "filter is_DuplicateDefinition
             (CheckDeprecated env ctx [(''generation'', DeprecatedGeneration rs)]) = []"
  shows "filter is_DuplicateDefinition (RouteSpec_Validate env ctx rs) =
           map (\<lambda>i. \<lparr>Message = Text (''Multiple definitions for ''
                                       @ fmt_q env (Name (Traffic rs ! i))),
                      Paths = [''traffic['' @ fmt_d (int (first_occ (Name (Traffic rs ! i))
                                                          (Traffic rs))) @ ''].name'',
                               ''traffic['' @ fmt_d (int i) @ ''].name'']\<rparr>)
             (repeats (Traffic rs))
         \<and> (\<forall>n. n \<noteq> '''' \<and> 2 \<le> count_list (map Name (Traffic rs)) n \<longrightarrow>
               length (filter (\<lambda>i. Name (Traffic rs ! i) = n) (repeats (Traffic rs)))
                 = count_list (map Name (Traffic rs)) n - 1)
         \<and> (inj (fmt_q env) \<longrightarrow>
             (\<forall>n. n \<noteq> '''' \<and> 2 \<le> count_list (map Name (Traffic rs)) n \<longrightarrow>
               length (filter (\<lambda>e. Message e = Text (''Multiple definitions for '' @ fmt_q env n))
                         (RouteSpec_Validate env ctx rs))
                 = count_list (map Name (Traffic rs)) n - 1))
         \<and> (\<forall>i \<in> set (repeats (Traffic rs)).
               Name (Traffic rs ! i) \<noteq> ''''
               \<and> first_occ (Name (Traffic rs ! i)) (Traffic rs) < i
               \<and> Name (Traffic rs ! first_occ (Name (Traffic rs ! i)) (Traffic rs))
                   = Name (Traffic rs ! i)
               \<and> (\<forall>k < first_occ (Name (Traffic rs ! i)) (Traffic rs).
                     Name (Traffic rs ! k) \<noteq> Name (Traffic rs ! i)))"
proof (intro conjI)
  note dups = RouteSpec_Validate_DuplicateDefinition [OF assms]
  show "filter is_DuplicateDefinition (RouteSpec_Validate env ctx rs) =
           map (\<lambda>i. \<lparr>Message = Text (''Multiple definitions for ''
                                       @ fmt_q env (Name (Traffic rs ! i))),
                      Paths = [''traffic['' @ fmt_d (int (first_occ (Name (Traffic rs ! i))
                                                          (Traffic rs))) @ ''].name'',
                               ''traffic['' @ fmt_d (int i) @ ''].name'']\<rparr>)
             (repeats (Traffic rs))"
    by (simp add: dups multiple_definitions_def)
  show "\<forall>n. n \<noteq> '''' \<and> 2 \<le> count_list (map Name (Traffic rs)) n \<longrightarrow>
               length (filter (\<lambda>i. Name (Traffic rs ! i) = n) (repeats (Traffic rs)))
                 = count_list (map Name (Traffic rs)) n - 1"
    by (simp add: repeats_count)
  show "inj (fmt_q env) \<longrightarrow>
             (\<forall>n. n \<noteq> '''' \<and> 2 \<le> count_list (map Name (Traffic rs)) n \<longrightarrow>
               length (filter (\<lambda>e. Message e = Text (''Multiple definitions for '' @ fmt_q env n))
                         (RouteSpec_Validate env ctx rs))
                 = count_list (map Name (Traffic rs)) n - 1)"
  proof (intro impI allI)
    fix n
    assume inj: "inj (fmt_q env)"
      and n: "n \<noteq> [] \<and> 2 \<le> count_list (map Name (Traffic rs)) n"
    from n have "length (filter (\<lambda>i. Name (Traffic rs ! i) = n) (repeats (Traffic rs)))
                   = count_list (map Name (Traffic rs)) n - 1"
      by (simp add: repeats_count)
    with named_findings_count [OF dups inj, of n]
    show "length (filter (\<lambda>e. Message e = Text (''Multiple definitions for '' @ fmt_q env n))
                         (RouteSpec_Validate env ctx rs))
                 = count_list (map Name (Traffic rs)) n - 1"
      by simp
  qed
  show "\<forall>i \<in> set (repeats (Traffic rs)).
               Name (Traffic rs ! i) \<noteq> ''''
               \<and> first_occ (Name (Traffic rs ! i)) (Traffic rs) < i
               \<and> Name (Traffic rs ! first_occ (Name (Traffic rs ! i)) (Traffic rs))
                   = Name (Traffic rs ! i)
               \<and> (\<forall>k < first_occ (Name (Traffic rs ! i)) (Traffic rs).
                     Name (Traffic rs ! k) \<noteq> Name (Traffic rs ! i))"
    by (simp add: repeats_name repeats_first_occ first_occ_name first_occ_least)
qed

lemma named_spec_repeats: "repeats (Traffic named_spec) = [3, 4]"
  by code_simp

lemma named_spec_first_occ: "first_occ ''a'' (Traffic named_spec) = 1"
  by code_simp

lemma example_fmt_q_inj: "inj (fmt_q example_env)"
  by (simp add: example_env_def inj_def)

text \<open>
  Three targets named \<open>a\<close>, at indices 1, 3 and 4, among unnamed ones: two findings,
  both naming \<open>a\<close> and both referring to index 1.
\<close>

theorem duplicate_definitions_witness:
  "count_list (map Name (Traffic named_spec)) ''a'' = 3
   \<and> filter is_DuplicateDefinition (RouteSpec_Validate example_env () named_spec) =
     [\<lparr>Message = Text (''Multiple definitions for '' @ [CHR 0x22] @ ''a'' @ [CHR 0x22]),
       Paths = [''traffic[1].name'', ''traffic[3].name'']\<rparr>,
      \<lparr>Message = Text (''Multiple definitions for '' @ [CHR 0x22] @ ''a'' @ [CHR 0x22]),
       Paths = [''traffic[1].name'', ''traffic[4].name'']\<rparr>]
   \<and> length (filter (\<lambda>e. Message e = Text (''Multiple definitions for '' @ fmt_q example_env ''a''))
               (RouteSpec_Validate example_env () named_spec)) = 2"
proof -
  have names: "Name (Traffic named_spec ! 3) = ''a''" "Name (Traffic named_spec ! 4) = ''a''"
    by (simp_all add: named_spec_def target_def)
  have dep: "filter is_DuplicateDefinition
               (CheckDeprecated example_env ()
                  [(''generation'', DeprecatedGeneration named_spec)]) = []"
    by (simp add: example_env_def)
  have count: "count_list (map Name (Traffic named_spec)) ''a'' = 3"
    by (simp add: named_spec_def target_def)
  note dd = duplicate_definitions [OF dep]
  have findings: "filter is_DuplicateDefinition (RouteSpec_Validate example_env () named_spec) =
     [\<lparr>Message = Text (''Multiple definitions for '' @ [CHR 0x22] @ ''a'' @ [CHR 0x22]),
       Paths = [''traffic[1].name'', ''traffic[3].name'']\<rparr>,
      \<lparr>Message = Text (''Multiple definitions for '' @ [CHR 0x22] @ ''a'' @ [CHR 0x22]),
       Paths = [''traffic[1].name'', ''traffic[4].name'']\<rparr>]"
    using dd [THEN conjunct1]
    by (simp add: named_spec_repeats names named_spec_first_occ fmt_d_simps)
       (simp add: example_env_def)
  have number: "length (filter (\<lambda>e. Message e = Text (''Multiple definitions for ''
                                                        @ fmt_q example_env ''a''))
               (RouteSpec_Validate example_env () named_spec)) = 2"
    using dd [THEN conjunct2, THEN conjunct2, THEN conjunct1] example_fmt_q_inj count
    by simp
  from count findings number show ?thesis by simp
qed

text \<open>
  C4: on the structurally empty Spec the Spec Validator returns the single MissingField
  finding at the current path, whatever the collaborators are (none of them is consulted),
  and the Resource Validator merges it, at path \<open>spec\<close>, after the metadata findings.
\<close>

theorem empty_spec_missing_field:
  "RouteSpec_Validate env ctx zero_RouteSpec = [\<lparr>Message = MissingField, Paths = [CurrentField]\<rparr>]
   \<and> Route_Validate env ctx \<lparr>ObjectMeta = m, Spec = zero_RouteSpec\<rparr> =
       Also (ViaField (ValidateObjectMetadata env m) ''metadata'')
         [\<lparr>Message = MissingField, Paths = [''spec'']\<rparr>]"
  by (simp add: RouteSpec_Validate_zero Route_Validate_def ViaField_def flatten_def Let_def)

text \<open>
  C9: a Spec that is not structurally empty and has no targets gets, after whatever the
  deprecated-field check reports, the sum-mismatch finding at path \<open>traffic\<close> with the
  actual total 0 and the expected total 100.
\<close>

theorem zero_targets_sum_mismatch:
  assumes "rs \<noteq> zero_RouteSpec" and "Traffic rs = []"
  shows "RouteSpec_Validate env ctx rs =
           Also (CheckDeprecated env ctx [(''generation'', DeprecatedGeneration rs)])
             [\<lparr>Message = Text ''Traffic targets sum to 0, want 100'', Paths = [''traffic'']\<rparr>]"
  using assms
  by (simp add: RouteSpec_Validate_def Let_def sum_mismatch_def fmt_d_simps)

theorem zero_targets_sum_mismatch_witness:
  "\<lparr>DeprecatedGeneration = 1, Traffic = []\<rparr> \<noteq> zero_RouteSpec
   \<and> RouteSpec_Validate example_env () \<lparr>DeprecatedGeneration = 1, Traffic = []\<rparr> =
       [\<lparr>Message = Text ''Traffic targets sum to 0, want 100'', Paths = [''traffic'']\<rparr>]"
  using zero_targets_sum_mismatch [of "\<lparr>DeprecatedGeneration = 1, Traffic = []\<rparr>" example_env "()"]
  by (simp add: zero_RouteSpec_def example_env_def Also_def)

subsection \<open>The out-of-bounds findings after the loop\<close>

lemma is_OutOfBoundsValue_ViaField:
  "filter is_OutOfBoundsValue (ViaField fe p) = ViaField (filter is_OutOfBoundsValue fe) p"
  by (induction fe) (simp_all add: ViaField_def is_OutOfBoundsValue_def)

lemma target_prefixed_OutOfBoundsValue:
  "filter is_OutOfBoundsValue (ViaFieldIndex (TrafficTarget_Validate env ctx tt) ''traffic'' i) =
     out_of_bounds_at i tt"
proof -
  have "filter is_OutOfBoundsValue (TrafficTarget_Validate env ctx tt) = weight_bounds_rule tt"
    by (simp add: TrafficTarget_Validate_rules selector_rule_kind weight_rule_kind url_rule_kind)
  then have "filter is_OutOfBoundsValue
               (ViaFieldIndex (TrafficTarget_Validate env ctx tt) ''traffic'' i) =
             ViaField (ViaField (weight_bounds_rule tt) (asIndex i)) ''traffic''"
    by (simp add: ViaFieldIndex_def ViaIndex_def is_OutOfBoundsValue_ViaField)
  also have "\<dots> = out_of_bounds_at i tt"
    by (auto simp add: weight_bounds_rule_def out_of_bounds_at_def ViaField_def flatten_def
        asIndex_def CurrentField_def)
  finally show ?thesis .
qed

lemma Text_not_OutOfBoundsValue:
  "\<not> is_OutOfBoundsValue (multiple_definitions env n ent i)"
  "\<not> is_OutOfBoundsValue (sum_mismatch s)"
  by (simp_all add: multiple_definitions_def sum_mismatch_def is_OutOfBoundsValue_def)

lemma loop_body_OutOfBoundsValue:
  "filter is_OutOfBoundsValue (errs (loop_body env ctx i tt st)) =
     filter is_OutOfBoundsValue (errs st) @ out_of_bounds_at i tt"
  by (simp add: loop_body_def Let_def Also_def target_prefixed_OutOfBoundsValue
      Text_not_OutOfBoundsValue split: option.splits)

lemma traffic_loop_OutOfBoundsValue:
  "filter is_OutOfBoundsValue (errs (traffic_loop env ctx i tts st)) =
     filter is_OutOfBoundsValue (errs st) @
     concat (map (\<lambda>(k, tt). out_of_bounds_at k tt) (enumerate i tts))"
  by (induction tts arbitrary: i st) (simp_all add: loop_body_OutOfBoundsValue)

text \<open>
  C10: weights outside [0,100] count toward the running total exactly as given. For
  every Spec that is not structurally empty, the sum-mismatch findings of the Spec
  Validator are those of the deprecated-field check followed by none when the sum of all
  the weights as they stand (in Go's wrapping 64-bit arithmetic, with no condition on
  their range) is 100, and by the single finding stating that sum otherwise; and its
  OutOfBoundsValue findings are those of the deprecated-field check followed by one
  finding at \<open>traffic[i].percent\<close>, carrying the weight, for each target whose weight is
  outside [0,100]. So a Spec such as the one with the weights 150 and -50 gets an
  OutOfBoundsValue finding for each target and no sum-mismatch finding.
\<close>

theorem out_of_range_weights_counted:
  assumes "rs \<noteq> zero_RouteSpec"
  shows "filter is_SumMismatch (RouteSpec_Validate env ctx rs) =
           filter is_SumMismatch
             (CheckDeprecated env ctx [(''generation'', DeprecatedGeneration rs)]) @
           (if sum_list (map Percent (Traffic rs)) = 100 then []
            else [\<lparr>Message = Text (''Traffic targets sum to ''
                                    @ fmt_d (sint (sum_list (map Percent (Traffic rs))))
                                    @ '', want 100''),
                   Paths = [''traffic'']\<rparr>])
         \<and> filter is_OutOfBoundsValue (RouteSpec_Validate env ctx rs) =
             filter is_OutOfBoundsValue
               (CheckDeprecated env ctx [(''generation'', DeprecatedGeneration rs)]) @
             concat (map (\<lambda>(i, tt).
                            if sint (Percent tt) < 0 \<or> 100 < sint (Percent tt) then
                              [\<lparr>Message = OutOfBoundsValue (Percent tt) 0 100,
                                Paths = [''traffic['' @ fmt_d (int i) @ ''].percent'']\<rparr>]
                            else [])
                       (enumerate 0 (Traffic rs)))"
proof
  show "filter is_SumMismatch (RouteSpec_Validate env ctx rs) =
           filter is_SumMismatch
             (CheckDeprecated env ctx [(''generation'', DeprecatedGeneration rs)]) @
           (if sum_list (map Percent (Traffic rs)) = 100 then []
            else [\<lparr>Message = Text (''Traffic targets sum to ''
                                    @ fmt_d (sint (sum_list (map Percent (Traffic rs))))
                                    @ '', want 100''),
                   Paths = [''traffic'']\<rparr>])"
    using sum_mismatch_kind(1) [of "sum_list (map Percent (Traffic rs))"]
    by (simp add: RouteSpec_Validate_nonzero [OF assms] traffic_loop_SumMismatch)
       (simp add: sum_mismatch_def)
  have "filter is_OutOfBoundsValue (RouteSpec_Validate env ctx rs) =
             filter is_OutOfBoundsValue
               (CheckDeprecated env ctx [(''generation'', DeprecatedGeneration rs)]) @
             concat (map (\<lambda>(i, tt). out_of_bounds_at i tt) (enumerate 0 (Traffic rs)))"
    by (simp add: RouteSpec_Validate_nonzero [OF assms] traffic_loop_OutOfBoundsValue
        Text_not_OutOfBoundsValue)
  then show "filter is_OutOfBoundsValue (RouteSpec_Validate env ctx rs) =
             filter is_OutOfBoundsValue
               (CheckDeprecated env ctx [(''generation'', DeprecatedGeneration rs)]) @
             concat (map (\<lambda>(i, tt).
                            if sint (Percent tt) < 0 \<or> 100 < sint (Percent tt) then
                              [\<lparr>Message = OutOfBoundsValue (Percent tt) 0 100,
                                Paths = [''traffic['' @ fmt_d (int i) @ ''].percent'']\<rparr>]
                            else [])
                       (enumerate 0 (Traffic rs)))"
    by (simp add: out_of_bounds_at_def)
qed

text \<open>
  The weights 150 and -50: two OutOfBoundsValue findings, no sum-mismatch finding. The
  weights 150 and 0: the sum-mismatch finding states the total 150.
\<close>

theorem out_of_range_weights_counted_witness:
  "out_of_range_spec \<noteq> zero_RouteSpec
   \<and> filter is_SumMismatch (RouteSpec_Validate example_env () out_of_range_spec) = []
   \<and> filter is_OutOfBoundsValue (RouteSpec_Validate example_env () out_of_range_spec) =
       [\<lparr>Message = OutOfBoundsValue 150 0 100, Paths = [''traffic[0].percent'']\<rparr>,
        \<lparr>Message = OutOfBoundsValue (- 50) 0 100, Paths = [''traffic[1].percent'']\<rparr>]
   \<and> unbalanced_spec \<noteq> zero_RouteSpec
   \<and> filter is_SumMismatch (RouteSpec_Validate example_env () unbalanced_spec) =
       [\<lparr>Message = Text ''Traffic targets sum to 150, want 100'', Paths = [''traffic'']\<rparr>]
   \<and> RouteSpec_Validate example_env () out_of_range_spec =
       [\<lparr>Message = OutOfBoundsValue 150 0 100, Paths = [''traffic[0].percent'']\<rparr>,
        \<lparr>Message = OutOfBoundsValue (- 50) 0 100, Paths = [''traffic[1].percent'']\<rparr>]"
proof -
  have nz: "out_of_range_spec \<noteq> zero_RouteSpec" "unbalanced_spec \<noteq> zero_RouteSpec"
    by (simp_all add: out_of_range_spec_def unbalanced_spec_def zero_RouteSpec_def)
  have balanced:
    "filter is_SumMismatch (RouteSpec_Validate example_env () out_of_range_spec) = []
     \<and> filter is_OutOfBoundsValue (RouteSpec_Validate example_env () out_of_range_spec) =
         [\<lparr>Message = OutOfBoundsValue 150 0 100, Paths = [''traffic[0].percent'']\<rparr>,
          \<lparr>Message = OutOfBoundsValue (- 50) 0 100, Paths = [''traffic[1].percent'']\<rparr>]"
    using out_of_range_weights_counted [OF nz(1), of example_env "()"]
    by (simp add: out_of_range_spec_def target_def example_env_def fmt_d_simps)
  have unbalanced:
    "filter is_SumMismatch (RouteSpec_Validate example_env () unbalanced_spec) =
       [\<lparr>Message = Text ''Traffic targets sum to 150, want 100'', Paths = [''traffic'']\<rparr>]"
    using out_of_range_weights_counted [OF nz(2), of example_env "()", THEN conjunct1]
    by (simp add: unbalanced_spec_def target_def example_env_def fmt_d_simps)
  have whole:
    "RouteSpec_Validate example_env () out_of_range_spec =
       [\<lparr>Message = OutOfBoundsValue 150 0 100, Paths = [''traffic[0].percent'']\<rparr>,
        \<lparr>Message = OutOfBoundsValue (- 50) 0 100, Paths = [''traffic[1].percent'']\<rparr>]"
    by (simp add: out_of_range_spec_def RouteSpec_Validate_def zero_RouteSpec_def loop_body_def
        target_def TrafficTarget_Validate_def Also_def Let_def ViaFieldIndex_def ViaIndex_def
        ViaField_def ErrOutOfBoundsValue_def word_sless_alt asIndex_def flatten_def
        CurrentField_def fmt_d_simps example_env_def)
  from nz balanced unbalanced whole show ?thesis by simp
qed

end
